theory Spec2Isabelle
  imports Main
begin

section \<open>The device session of \<open>custom_components/localtuya/common.py\<close>\<close>

text \<open>
  The class \<open>TuyaDevice\<close> keeps one connection to a Tuya device alive on an asyncio event
  loop. The model is a record of the object's fields together with the parts of the
  environment that the methods act on: the tasks created by \<open>asyncio.ensure_future\<close>, the
  callbacks queued by \<open>loop.call_soon\<close>, the payloads handed to \<open>async_dispatcher_send\<close>,
  the calls made on the pytuya link and the records written to the logger.

  Every method is a function from session to session. The coroutine \<open>_make_connection\<close>
  suspends at three \<open>await\<close>s; it is modelled by its program counter and one function that
  resumes it with the value (or exception) the awaited operation produced.

  The loop is single-threaded: a method, and a coroutine between two \<open>await\<close>s, runs
  without interruption, so each is one step of the model. Subscribers called by
  \<open>async_dispatcher_send\<close> are taken not to call back into the session. The dispatcher is
  handed the dictionary object \<open>self._status\<close> itself; the model records its contents at
  the time of the call.
\<close>

subsection \<open>Data\<close>

type_synonym dps = "string \<rightharpoonup> string"
  \<comment> \<open>a status dictionary: datapoint id to value\<close>

type_synonym link = nat
  \<comment> \<open>the identity of one object returned by \<open>pytuya.connect\<close>\<close>

datatype log_record =
    LogConnecting              \<comment> \<open>"Connecting to %s (%s)"\<close>
  | LogAlreadyConnecting       \<comment> \<open>"Already connecting to %s (%s) - %s, %s, %s"\<close>
  | LogWaiting int             \<comment> \<open>"Waiting %d seconds before connecting"\<close>
  | LogConnectingTo            \<comment> \<open>"Connecting to %s"\<close>
  | LogRetrieving              \<comment> \<open>"Retrieving initial state"\<close>
  | LogConnectFailed           \<comment> \<open>"Connect to ... failed"\<close>
  | LogFailedSetDp             \<comment> \<open>"Failed to set DP %d to %d"\<close>
  | LogNotConnected            \<comment> \<open>"Not connected to device %s"\<close>
  | LogDisconnected            \<comment> \<open>"Disconnected from %s: %s"\<close>
  | LogNoAutoReconnect         \<comment> \<open>"No automatic re-connect due to passive device"\<close>

datatype link_call =
    AddDpsToRequest link "string set"
  | LinkClose link
  | LinkSetDp link string nat

datatype loop_callback = CbConnect
  \<comment> \<open>the only callable this class hands to \<open>loop.call_soon\<close> is \<open>self.connect\<close>\<close>

datatype exn = CancelledError | Error
  \<comment> \<open>\<open>asyncio.CancelledError\<close>, and any exception derived from \<open>Exception\<close>\<close>

fun is_Exception :: "exn \<Rightarrow> bool" where
  "is_Exception CancelledError = False"
| "is_Exception Error = True"

text \<open>
  \<open>is_Exception e\<close> says whether \<open>except Exception\<close> catches \<open>e\<close>. Since Python 3.8
  \<open>asyncio.CancelledError\<close> derives from \<open>BaseException\<close>, so the clause does not catch it.
\<close>

datatype pc =
    NotStarted     \<comment> \<open>created by \<open>ensure_future\<close>, not yet run\<close>
  | AtSleep        \<comment> \<open>suspended in \<open>await asyncio.sleep(backoff)\<close>\<close>
  | AtConnect      \<comment> \<open>suspended in \<open>await pytuya.connect(...)\<close>\<close>
  | AtStatus       \<comment> \<open>suspended in \<open>await self._interface.status()\<close>\<close>
  | Done           \<comment> \<open>the coroutine has returned or raised\<close>

record task =
  pc :: pc
  must_cancel :: bool   \<comment> \<open>\<open>Task.cancel()\<close> was called; the next resumption raises\<close>

record config =
  cfg_passive :: bool             \<comment> \<open>\<open>config_entry[CONF_PASSIVE_DEVICE]\<close>\<close>
  cfg_entity_ids :: "string list" \<comment> \<open>\<open>entity[CONF_ID]\<close> for the entities of \<open>CONF_ENTITIES\<close>\<close>

record session =
  \<comment> \<open>fields of \<open>TuyaDevice\<close>\<close>
  passive_device :: bool
  interface :: "link option"
  status :: dps
  dps_to_request :: "string set"
  is_closing :: bool
  connect_task :: "nat option"
  connection_attempts :: nat
  \<comment> \<open>the environment\<close>
  tasks :: "task list"
  loop_ready :: "loop_callback list"
  dispatched :: "dps option list"
  link_calls :: "link_call list"
  logged :: "log_record list"

definition init :: "config \<Rightarrow> session" where
  "init cfg =
     \<lparr> passive_device = cfg_passive cfg,
       interface = None,
       status = Map.empty,
       dps_to_request = set (cfg_entity_ids cfg),
       is_closing = False,
       connect_task = None,
       connection_attempts = 0,
       tasks = [],
       loop_ready = [],
       dispatched = [],
       link_calls = [],
       logged = [] \<rparr>"

subsection \<open>The environment's primitives\<close>

definition emit :: "log_record \<Rightarrow> session \<Rightarrow> session" where
  "emit r s = s\<lparr>logged := logged s @ [r]\<rparr>"

definition async_dispatcher_send :: "dps option \<Rightarrow> session \<Rightarrow> session" where
  "async_dispatcher_send payload s = s\<lparr>dispatched := dispatched s @ [payload]\<rparr>"

definition link_call :: "link_call \<Rightarrow> session \<Rightarrow> session" where
  "link_call c s = s\<lparr>link_calls := link_calls s @ [c]\<rparr>"

definition call_soon :: "loop_callback \<Rightarrow> session \<Rightarrow> session" where
  "call_soon cb s = s\<lparr>loop_ready := loop_ready s @ [cb]\<rparr>"

definition ensure_future :: "session \<Rightarrow> nat \<times> session" where
  "ensure_future s =
     (length (tasks s), s\<lparr>tasks := tasks s @ [\<lparr>pc = NotStarted, must_cancel = False\<rparr>]\<rparr>)"

definition cancel :: "nat \<Rightarrow> session \<Rightarrow> session" where
  "cancel t s =
     (if t < length (tasks s) \<and> pc (tasks s ! t) \<noteq> Done
      then s\<lparr>tasks := (tasks s)[t := (tasks s ! t)\<lparr>must_cancel := True\<rparr>]\<rparr>
      else s)"

definition suspend :: "nat \<Rightarrow> pc \<Rightarrow> session \<Rightarrow> session" where
  "suspend t p s = s\<lparr>tasks := (tasks s)[t := (tasks s ! t)\<lparr>pc := p\<rparr>]\<rparr>"

definition finish :: "nat \<Rightarrow> session \<Rightarrow> session" where
  "finish t s = s\<lparr>tasks := (tasks s)[t := \<lparr>pc = Done, must_cancel = False\<rparr>]\<rparr>"

text \<open>The task ids that have not run to their end.\<close>

definition in_flight :: "session \<Rightarrow> nat list" where
  "in_flight s = filter (\<lambda>t. pc (tasks s ! t) \<noteq> Done) [0..<length (tasks s)]"

subsection \<open>Backoff\<close>

definition BACKOFF_TIME_UPPER_LIMIT :: int where
  "BACKOFF_TIME_UPPER_LIMIT = 300"

text \<open>
  \<open>random.randrange(stop)\<close> returns some integer of \<open>[0, stop)\<close>; the model keeps the set
  of values it can return, and the value drawn is an input of the step that starts the
  coroutine.
\<close>

definition randrange :: "int \<Rightarrow> int set" where
  "randrange stop = {0..<stop}"

definition backoff :: "nat \<Rightarrow> int set" where
  "backoff attempts = (\<lambda>r. min r BACKOFF_TIME_UPPER_LIMIT) ` randrange (2 ^ attempts)"

subsection \<open>The methods of \<open>TuyaDevice\<close>\<close>

definition connect :: "session \<Rightarrow> session" where
  "connect s =
     (if \<not> is_closing s \<and> connect_task s = None \<and> interface s = None
      then (let (t, s1) = ensure_future (emit LogConnecting s)
            in s1\<lparr>connect_task := Some t\<rparr>)
      else emit LogAlreadyConnecting s)"

definition status_updated :: "dps \<Rightarrow> session \<Rightarrow> session" where
  "status_updated st s =
     (let s1 = s\<lparr>status := status s ++ st\<rparr>
      in async_dispatcher_send (Some (status s1)) s1)"

definition disconnected :: "session \<Rightarrow> session" where
  "disconnected s =
     (let s1 = emit LogDisconnected s;
          s2 = async_dispatcher_send None s1;
          s3 = s2\<lparr>interface := None\<rparr>
      in if \<not> passive_device s3 then connect s3 else emit LogNoAutoReconnect s3)"

definition close :: "session \<Rightarrow> session" where
  "close s =
     (let s1 = s\<lparr>is_closing := True\<rparr>;
          s2 = (case connect_task s1 of Some t \<Rightarrow> cancel t s1 | None \<Rightarrow> s1)
      in case interface s2 of Some l \<Rightarrow> link_call (LinkClose l) s2 | None \<Rightarrow> s2)"

text \<open>
  \<open>set_dp\<close> awaits the link's \<open>set_dp\<close>; what that call does is the parameter \<open>w\<close>:
  it returns, or it raises \<open>e\<close>. The result is what the caller of \<open>set_dp\<close> gets:
  \<open>Inr ()\<close> for the return value \<open>None\<close>, \<open>Inl e\<close> for an exception that leaves it.
\<close>

datatype write_outcome = WriteOk | WriteRaises exn

definition set_dp :: "string \<Rightarrow> nat \<Rightarrow> write_outcome \<Rightarrow> session \<Rightarrow> (exn + unit) \<times> session" where
  "set_dp state dp_index w s =
     (case interface s of
        Some l \<Rightarrow>
          (let s1 = link_call (LinkSetDp l state dp_index) s
           in case w of
                WriteOk \<Rightarrow> (Inr (), s1)
              | WriteRaises e \<Rightarrow>
                  if is_Exception e then (Inr (), emit LogFailedSetDp s1) else (Inl e, s1))
      | None \<Rightarrow> (Inr (), emit LogNotConnected s))"

subsection \<open>The coroutine \<open>_make_connection\<close>\<close>

text \<open>What the event loop hands to the suspended coroutine when it resumes it.\<close>

datatype resume =
    Begin int              \<comment> \<open>first run; the argument is the value of \<open>min(randrange(..), ..)\<close>\<close>
  | Wake                   \<comment> \<open>\<open>asyncio.sleep\<close> is over\<close>
  | Connected link         \<comment> \<open>\<open>pytuya.connect\<close> returned this link\<close>
  | ConnectFailed          \<comment> \<open>\<open>pytuya.connect\<close> raised an \<open>Exception\<close>\<close>
  | Status "dps option"    \<comment> \<open>\<open>status()\<close> returned \<open>None\<close> or a dictionary\<close>
  | StatusFailed           \<comment> \<open>\<open>status()\<close> raised an \<open>Exception\<close>\<close>

text \<open>The body of the \<open>except Exception\<close> clause.\<close>

definition connect_failed :: "session \<Rightarrow> session" where
  "connect_failed s =
     (let s1 = emit LogConnectFailed s;
          s2 = s1\<lparr>connection_attempts := connection_attempts s1 + 1\<rparr>;
          s3 = (case interface s2 of
                  Some l \<Rightarrow> (link_call (LinkClose l) s2)\<lparr>interface := None\<rparr>
                | None \<Rightarrow> s2)
      in call_soon CbConnect s3)"

text \<open>
  An exception raised inside the \<open>try\<close> block by task \<open>t\<close>: if the clause catches it, its
  body runs and the coroutine goes on to its last statement, \<open>self._connect_task = None\<close>;
  otherwise the exception leaves the coroutine, which ends there.
\<close>

definition raise_in_try :: "nat \<Rightarrow> exn \<Rightarrow> session \<Rightarrow> session" where
  "raise_in_try t e s =
     (if is_Exception e
      then finish t ((connect_failed s)\<lparr>connect_task := None\<rparr>)
      else finish t s)"

text \<open>An exception raised outside the \<open>try\<close> block (in the backoff sleep) ends the coroutine.\<close>

definition raise_outside_try :: "nat \<Rightarrow> exn \<Rightarrow> session \<Rightarrow> session" where
  "raise_outside_try t e s = finish t s"

fun make_connection :: "nat \<Rightarrow> pc \<Rightarrow> resume \<Rightarrow> session \<Rightarrow> session" where
  "make_connection t NotStarted (Begin d) s =
     (if d \<in> backoff (connection_attempts s)
      then suspend t AtSleep (emit (LogWaiting d) s)
      else s)"
| "make_connection t AtSleep Wake s =
     suspend t AtConnect (emit LogConnectingTo s)"
| "make_connection t AtConnect (Connected l) s =
     suspend t AtStatus
       (emit LogRetrieving
          (link_call (AddDpsToRequest l (dps_to_request s)) (s\<lparr>interface := Some l\<rparr>)))"
| "make_connection t AtConnect ConnectFailed s = raise_in_try t Error s"
| "make_connection t AtStatus (Status None) s = raise_in_try t Error s"
| "make_connection t AtStatus (Status (Some st)) s =
     finish t ((status_updated st s)\<lparr>connection_attempts := 0, connect_task := None\<rparr>)"
| "make_connection t AtStatus StatusFailed s = raise_in_try t Error s"
| "make_connection t _ _ s = s"

text \<open>
  A cancelled task is resumed by raising \<open>CancelledError\<close> at the point where it is
  suspended (for a task that has not started: before its first statement).
\<close>

fun throw_cancelled :: "nat \<Rightarrow> pc \<Rightarrow> session \<Rightarrow> session" where
  "throw_cancelled t NotStarted s = raise_outside_try t CancelledError s"
| "throw_cancelled t AtSleep s = raise_outside_try t CancelledError s"
| "throw_cancelled t AtConnect s = raise_in_try t CancelledError s"
| "throw_cancelled t AtStatus s = raise_in_try t CancelledError s"
| "throw_cancelled t Done s = s"

definition resume_task :: "nat \<Rightarrow> resume \<Rightarrow> session \<Rightarrow> session" where
  "resume_task t r s =
     (if t < length (tasks s)
      then (if must_cancel (tasks s ! t)
            then throw_cancelled t (pc (tasks s ! t)) s
            else make_connection t (pc (tasks s ! t)) r s)
      else s)"

subsection \<open>The event loop\<close>

text \<open>
  Everything that can happen to a session: a consumer calls a method, the link calls one
  of the listener callbacks, the loop runs the oldest queued callback, or the loop resumes
  a task. An event that cannot happen in a state (resuming a task that does not exist, or
  with a value it is not waiting for) leaves the state as it is.
\<close>

datatype event =
    EvConnect
  | EvClose
  | EvSetDp string nat write_outcome
  | EvStatusUpdated dps
  | EvDisconnected
  | EvCallback
  | EvResume nat resume

fun run_callback :: "loop_callback \<Rightarrow> session \<Rightarrow> session" where
  "run_callback CbConnect s = connect s"

fun step :: "session \<Rightarrow> event \<Rightarrow> session" where
  "step s EvConnect = connect s"
| "step s EvClose = close s"
| "step s (EvSetDp state dp_index w) = snd (set_dp state dp_index w s)"
| "step s (EvStatusUpdated st) = status_updated st s"
| "step s EvDisconnected = disconnected s"
| "step s EvCallback =
     (case loop_ready s of
        [] \<Rightarrow> s
      | cb # rest \<Rightarrow> run_callback cb (s\<lparr>loop_ready := rest\<rparr>))"
| "step s (EvResume t r) = resume_task t r s"

definition exec :: "session \<Rightarrow> event list \<Rightarrow> session" where
  "exec s evs = foldl step s evs"

subsection \<open>Observations\<close>

text \<open>
  Every call of \<open>connect\<close> writes exactly one of two debug records, so the log counts the
  calls.
\<close>

fun logs_connect_call :: "log_record \<Rightarrow> bool" where
  "logs_connect_call LogConnecting = True"
| "logs_connect_call LogAlreadyConnecting = True"
| "logs_connect_call _ = False"

definition connect_calls :: "session \<Rightarrow> nat" where
  "connect_calls s = length (filter logs_connect_call (logged s))"

text \<open>
  What an event merges into the status cache: the argument of a \<open>status_updated\<close> callback,
  or the dictionary that the initial \<open>status()\<close> call of a running attempt returns.
\<close>

fun fetched :: "pc \<Rightarrow> resume \<Rightarrow> dps" where
  "fetched AtStatus (Status (Some st)) = st"
| "fetched _ _ = Map.empty"

fun merged_by :: "session \<Rightarrow> event \<Rightarrow> dps" where
  "merged_by s (EvStatusUpdated st) = st"
| "merged_by s (EvResume t r) =
     (if t < length (tasks s) \<and> \<not> must_cancel (tasks s ! t)
      then fetched (pc (tasks s ! t)) r
      else Map.empty)"
| "merged_by s _ = Map.empty"

text \<open>The fields that say whether and how the session is connected.\<close>

definition connection_state :: "session \<Rightarrow> link option \<times> nat option \<times> bool \<times> nat" where
  "connection_state s = (interface s, connect_task s, is_closing s, connection_attempts s)"

text \<open>
  Every task that has not finished is the one \<open>_connect_task\<close> refers to.
\<close>

definition handle_inv :: "session \<Rightarrow> bool" where
  "handle_inv s \<longleftrightarrow>
     (\<forall>t. t < length (tasks s) \<longrightarrow> pc (tasks s ! t) \<noteq> Done \<longrightarrow> connect_task s = Some t)"

subsection \<open>Scenarios\<close>

text \<open>
  A non-passive device with two entities; the session of that device when its first
  attempt waits for the initial status; and the same session once the status
  \<open>{"2": "5"}\<close> has arrived.
\<close>

definition cfg0 :: config where
  "cfg0 = \<lparr>cfg_passive = False, cfg_entity_ids = [''1'', ''2'']\<rparr>"

definition at_status :: session where
  "at_status = exec (init cfg0)
     [EvConnect, EvResume 0 (Begin 0), EvResume 0 Wake, EvResume 0 (Connected 7)]"

definition connected0 :: session where
  "connected0 = exec (init cfg0)
     [EvConnect, EvResume 0 (Begin 0), EvResume 0 Wake, EvResume 0 (Connected 1),
      EvResume 0 (Status (Some [''2'' \<mapsto> ''5'']))]"

text \<open>
  Runs of attempts. A failed attempt of task \<open>t\<close> waits \<open>d\<close>, then either
  \<open>pytuya.connect\<close> raises, or it returns a link and \<open>status()\<close> raises or returns
  \<open>None\<close>. After each failure the loop runs the queued \<open>connect\<close>, which creates the
  next task. \<open>delays_ok n\<close> says that each delay is one the backoff allows, the first
  attempt being made with counter \<open>n\<close>.
\<close>

datatype failure = ConnectRaises | StatusRaises link | StatusNone link

fun failed_attempt :: "nat \<Rightarrow> int \<Rightarrow> failure \<Rightarrow> event list" where
  "failed_attempt t d ConnectRaises =
     [EvResume t (Begin d), EvResume t Wake, EvResume t ConnectFailed]"
| "failed_attempt t d (StatusRaises l) =
     [EvResume t (Begin d), EvResume t Wake, EvResume t (Connected l), EvResume t StatusFailed]"
| "failed_attempt t d (StatusNone l) =
     [EvResume t (Begin d), EvResume t Wake, EvResume t (Connected l), EvResume t (Status None)]"

definition successful_attempt :: "nat \<Rightarrow> int \<Rightarrow> link \<Rightarrow> dps \<Rightarrow> event list" where
  "successful_attempt t d l st =
     [EvResume t (Begin d), EvResume t Wake, EvResume t (Connected l),
      EvResume t (Status (Some st))]"

fun failures :: "nat \<Rightarrow> (int \<times> failure) list \<Rightarrow> event list" where
  "failures t [] = []"
| "failures t ((d, f) # fs) = failed_attempt t d f @ [EvCallback] @ failures (Suc t) fs"

fun delays_ok :: "nat \<Rightarrow> (int \<times> failure) list \<Rightarrow> bool" where
  "delays_ok n [] = True"
| "delays_ok n ((d, f) # fs) = (d \<in> backoff n \<and> delays_ok (Suc n) fs)"

text \<open>A session whose newest task \<open>t\<close> was just created by \<open>connect\<close> and nothing else is pending.\<close>

definition fresh_attempt :: "session \<Rightarrow> nat \<Rightarrow> bool" where
  "fresh_attempt s t \<longleftrightarrow>
     length (tasks s) = Suc t \<and> tasks s ! t = \<lparr>pc = NotStarted, must_cancel = False\<rparr>
     \<and> connect_task s = Some t \<and> interface s = None \<and> \<not> is_closing s \<and> loop_ready s = []"

section \<open>Backoff bound\<close>

lemma randrange_pow_nonempty: "(0::int) \<in> randrange (2 ^ n)"
  by (simp add: randrange_def)

lemma backoff_eq: "backoff n = {0 .. min (2 ^ n - 1) BACKOFF_TIME_UPPER_LIMIT}"
proof (rule set_eqI)
  fix d :: int
  show "d \<in> backoff n \<longleftrightarrow> d \<in> {0 .. min (2 ^ n - 1) BACKOFF_TIME_UPPER_LIMIT}"
  proof
    assume "d \<in> backoff n"
    then obtain r where r: "0 \<le> r" "r < 2 ^ n" and d: "d = min r BACKOFF_TIME_UPPER_LIMIT"
      by (auto simp: backoff_def randrange_def)
    from r d show "d \<in> {0 .. min (2 ^ n - 1) BACKOFF_TIME_UPPER_LIMIT}"
      by (auto simp: BACKOFF_TIME_UPPER_LIMIT_def)
  next
    assume "d \<in> {0 .. min (2 ^ n - 1) BACKOFF_TIME_UPPER_LIMIT}"
    then have "0 \<le> d" "d < 2 ^ n" "d \<le> BACKOFF_TIME_UPPER_LIMIT"
      by auto
    then have "d \<in> randrange (2 ^ n)" "min d BACKOFF_TIME_UPPER_LIMIT = d"
      by (auto simp: randrange_def)
    then show "d \<in> backoff n"
      unfolding backoff_def by (metis imageI)
  qed
qed

text \<open>
  C6. For every attempt count \<open>n\<close> the delay waited before a connection attempt is a value
  drawn from \<open>[0, 2^n)\<close> and capped at 300: it is never negative and never above 300, some
  delay always exists, every value of \<open>[0, min (2^n - 1) 300]\<close> can occur, and with no
  failed attempt so far the delay is zero.
\<close>

theorem C6_backoff_bounded:
  "backoff n \<noteq> {}
   \<and> (\<forall>d \<in> backoff n. 0 \<le> d \<and> d \<le> 300 \<and> (\<exists>r. 0 \<le> r \<and> r < 2 ^ n \<and> d = min r 300))
   \<and> backoff n = {0 .. min (2 ^ n - 1) 300}
   \<and> backoff 0 = {0}"
proof -
  have ne: "backoff n \<noteq> {}"
    using randrange_pow_nonempty [of n] by (auto simp: backoff_def)
  have bounds: "\<forall>d \<in> backoff n. 0 \<le> d \<and> d \<le> 300 \<and> (\<exists>r. 0 \<le> r \<and> r < 2 ^ n \<and> d = min r 300)"
    by (auto simp: backoff_def randrange_def BACKOFF_TIME_UPPER_LIMIT_def)
  have range: "backoff n = {0 .. min (2 ^ n - 1) 300}"
    using backoff_eq [of n] by (simp add: BACKOFF_TIME_UPPER_LIMIT_def)
  have zero: "backoff 0 = {0}"
    using backoff_eq [of 0] by (simp add: BACKOFF_TIME_UPPER_LIMIT_def)
  from ne bounds range zero show ?thesis by blast
qed

theorem C6_backoff_bounded_witness:
  "(300::int) \<in> backoff 9 \<and> (0::int) \<le> 300 \<and> (300::int) \<le> 300
   \<and> (\<exists>r::int. 0 \<le> r \<and> r < 2 ^ 9 \<and> 300 = min r 300)"
proof -
  have mem: "(300::int) \<in> backoff 9"
    using C6_backoff_bounded [of 9] by simp
  with C6_backoff_bounded [of 9] show ?thesis by blast
qed


section \<open>Basic facts about the methods\<close>

lemmas prims = emit_def async_dispatcher_send_def link_call_def call_soon_def
  ensure_future_def cancel_def suspend_def finish_def

lemma connect_calls_connect: "connect_calls (connect s) = Suc (connect_calls s)"
  by (simp add: connect_def connect_calls_def prims)

lemma connect_dispatched: "dispatched (connect s) = dispatched s"
  by (simp add: connect_def prims)

lemma connect_interface: "interface (connect s) = interface s"
  by (simp add: connect_def prims)

lemmas meths = connect_def status_updated_def disconnected_def close_def set_dp_def
  connect_failed_def raise_in_try_def raise_outside_try_def

lemma backoff_mem: "d \<in> backoff n \<longleftrightarrow> 0 \<le> d \<and> d \<le> 300 \<and> d < 2 ^ n"
  unfolding backoff_eq BACKOFF_TIME_UPPER_LIMIT_def by auto


lemmas run_defs = exec_def init_def cfg0_def resume_task_def prims meths Let_def backoff_mem

lemma run_callback_connect: "run_callback cb s = connect s"
  by (cases cb) simp

lemma make_connection_closing: "is_closing (make_connection t p r s) = is_closing s"
  by (induction t p r s rule: make_connection.induct) (simp_all add: prims meths Let_def split: option.splits)

lemma throw_cancelled_closing: "is_closing (throw_cancelled t p s) = is_closing s"
  by (cases p) (simp_all add: prims meths Let_def split: option.splits)

lemma resume_task_closing: "is_closing (resume_task t r s) = is_closing s"
  by (simp add: resume_task_def make_connection_closing throw_cancelled_closing)

lemma connect_closing: "is_closing (connect s) = is_closing s"
  by (simp add: connect_def prims)

lemma step_closing: "is_closing s \<Longrightarrow> is_closing (step s e)"
  by (cases e)
    (simp_all add: run_callback_connect connect_closing resume_task_closing close_def disconnected_def
       status_updated_def set_dp_def prims Let_def split: option.splits list.splits write_outcome.splits
       loop_callback.splits)

lemma make_connection_ntasks: "length (tasks (make_connection t p r s)) = length (tasks s)"
  by (induction t p r s rule: make_connection.induct) (simp_all add: prims meths Let_def split: option.splits)

lemma throw_cancelled_ntasks: "length (tasks (throw_cancelled t p s)) = length (tasks s)"
  by (cases p) (simp_all add: prims meths Let_def split: option.splits)

lemma resume_task_ntasks: "length (tasks (resume_task t r s)) = length (tasks s)"
  by (simp add: resume_task_def make_connection_ntasks throw_cancelled_ntasks)

lemma connect_closing_noop: "is_closing s \<Longrightarrow> connect s = emit LogAlreadyConnecting s"
  by (simp add: connect_def)

lemma step_closing_ntasks: "is_closing s \<Longrightarrow> length (tasks (step s e)) = length (tasks s)"
  by (cases e)
    (simp_all add: run_callback_connect connect_closing_noop resume_task_ntasks close_def disconnected_def
       status_updated_def set_dp_def prims Let_def split: option.splits list.splits write_outcome.splits
       loop_callback.splits)

lemma exec_Nil: "exec s [] = s"
  by (simp add: exec_def)

lemma exec_Cons: "exec s (e # evs) = exec (step s e) evs"
  by (simp add: exec_def)

lemma exec_append: "exec s (xs @ ys) = exec (exec s xs) ys"
  by (simp add: exec_def)

lemma exec_closing: "is_closing s \<Longrightarrow> is_closing (exec s evs)"
  by (induction evs arbitrary: s) (simp_all add: exec_Nil exec_Cons step_closing)

lemma exec_closing_ntasks: "is_closing s \<Longrightarrow> length (tasks (exec s evs)) = length (tasks s)"
proof (induction evs arbitrary: s)
  case Nil
  show ?case by (simp add: exec_Nil)
next
  case (Cons e evs)
  have "is_closing (step s e)"
    using Cons.prems by (rule step_closing)
  then have "length (tasks (exec (step s e) evs)) = length (tasks (step s e))"
    by (rule Cons.IH)
  with Cons.prems show ?case
    by (simp add: exec_Cons step_closing_ntasks)
qed

lemma close_closing: "is_closing (close s)"
  by (simp add: close_def prims Let_def split: option.splits)

lemma close_ntasks: "length (tasks (close s)) = length (tasks s)"
  by (simp add: close_def prims Let_def split: option.splits)

section \<open>Disconnection\<close>

text \<open>
  C7. On every disconnection callback the session sets its link handle to \<open>None\<close> and
  sends \<open>None\<close> (which is not the empty dictionary) to the subscribers. It calls
  \<open>connect\<close> exactly when the device is not passive: the number of \<open>connect\<close> calls
  recorded in the log grows by one for a non-passive device and not at all for a passive
  one, and for a passive device no task is created, nothing is queued on the loop and
  the attempt handle is left as it was.
\<close>

theorem C7_disconnected:
  "interface (disconnected s) = None
   \<and> dispatched (disconnected s) = dispatched s @ [None]
   \<and> None \<noteq> Some (Map.empty :: dps)
   \<and> connect_calls (disconnected s) = connect_calls s + (if passive_device s then 0 else 1)
   \<and> (passive_device s \<longrightarrow>
        tasks (disconnected s) = tasks s \<and> loop_ready (disconnected s) = loop_ready s
        \<and> connect_task (disconnected s) = connect_task s)
   \<and> (\<not> passive_device s \<longrightarrow>
        disconnected s =
          connect (s\<lparr>logged := logged s @ [LogDisconnected],
                     dispatched := dispatched s @ [None], interface := None\<rparr>))"
proof -
  let ?b = "s\<lparr>logged := logged s @ [LogDisconnected],
               dispatched := dispatched s @ [None], interface := None\<rparr>"
  have shape: "disconnected s = (if passive_device s then emit LogNoAutoReconnect ?b else connect ?b)"
    by (simp add: disconnected_def emit_def async_dispatcher_send_def)
  have 1: "interface (disconnected s) = None"
    by (simp add: shape connect_interface emit_def)
  have 2: "dispatched (disconnected s) = dispatched s @ [None]"
    by (simp add: shape connect_dispatched emit_def)
  have 3: "connect_calls (disconnected s) = connect_calls s + (if passive_device s then 0 else 1)"
    by (simp add: shape connect_calls_connect) (simp add: connect_calls_def emit_def)
  have 4: "passive_device s \<longrightarrow>
        tasks (disconnected s) = tasks s \<and> loop_ready (disconnected s) = loop_ready s
        \<and> connect_task (disconnected s) = connect_task s"
    by (simp add: shape emit_def)
  have 5: "\<not> passive_device s \<longrightarrow> disconnected s = connect ?b"
    by (simp add: shape)
  from 1 2 3 4 5 show ?thesis by simp
qed

theorem C7_disconnected_witness:
  "interface (disconnected (init \<lparr>cfg_passive = True, cfg_entity_ids = [''1'']\<rparr>)) = None
   \<and> dispatched (disconnected (init \<lparr>cfg_passive = True, cfg_entity_ids = [''1'']\<rparr>)) = [None]
   \<and> connect_calls (disconnected (init \<lparr>cfg_passive = True, cfg_entity_ids = [''1'']\<rparr>)) = 0
   \<and> tasks (disconnected (init \<lparr>cfg_passive = True, cfg_entity_ids = [''1'']\<rparr>)) = []
   \<and> connect_calls (disconnected (init \<lparr>cfg_passive = False, cfg_entity_ids = [''1'']\<rparr>)) = 1"
proof -
  let ?p = "init \<lparr>cfg_passive = True, cfg_entity_ids = [''1'']\<rparr>"
  let ?a = "init \<lparr>cfg_passive = False, cfg_entity_ids = [''1'']\<rparr>"
  have fresh: "connect_calls ?p = 0" "connect_calls ?a = 0" "passive_device ?p"
    "\<not> passive_device ?a" "dispatched ?p = []" "tasks ?p = []"
    by (simp_all add: init_def connect_calls_def)
  have active: "connect_calls (disconnected ?a)
      = connect_calls ?a + (if passive_device ?a then 0 else 1)"
    using C7_disconnected [of ?a] by blast
  have quiet: "interface (disconnected ?p) = None"
    "dispatched (disconnected ?p) = dispatched ?p @ [None]"
    "connect_calls (disconnected ?p) = connect_calls ?p + (if passive_device ?p then 0 else 1)"
    "passive_device ?p \<longrightarrow> tasks (disconnected ?p) = tasks ?p"
    using C7_disconnected [of ?p] by blast+
  from active quiet fresh show ?thesis
    by simp
qed

section \<open>Closing is final\<close>

text \<open>
  C8. After \<open>close\<close> has been called, whatever happens next (calls of \<open>connect\<close> by a
  consumer, the queued retry callback, disconnection callbacks, resumed tasks, in any
  number and order), the session stays closing, no task is ever created again, and a call
  of \<open>connect\<close> only writes its "already connecting" record.
\<close>

theorem C8_closed_is_terminal:
  "is_closing (exec (close s) evs)
   \<and> length (tasks (exec (close s) evs)) = length (tasks s)
   \<and> connect (exec (close s) evs) = emit LogAlreadyConnecting (exec (close s) evs)
   \<and> tasks (connect (exec (close s) evs)) = tasks (exec (close s) evs)"
proof -
  have c: "is_closing (exec (close s) evs)"
    using close_closing by (rule exec_closing)
  have n: "length (tasks (exec (close s) evs)) = length (tasks s)"
    using exec_closing_ntasks [OF close_closing, of s evs] by (simp add: close_ntasks)
  have k: "connect (exec (close s) evs) = emit LogAlreadyConnecting (exec (close s) evs)"
    using c by (rule connect_closing_noop)
  from c n k show ?thesis by (simp add: emit_def)
qed

theorem C8_closed_is_terminal_witness:
  "is_closing (exec (close (init \<lparr>cfg_passive = False, cfg_entity_ids = []\<rparr>))
       [EvConnect, EvDisconnected, EvCallback])
   \<and> length (tasks (exec (close (init \<lparr>cfg_passive = False, cfg_entity_ids = []\<rparr>))
       [EvConnect, EvDisconnected, EvCallback])) = 0"
  using C8_closed_is_terminal [of "init \<lparr>cfg_passive = False, cfg_entity_ids = []\<rparr>"
      "[EvConnect, EvDisconnected, EvCallback]"]
  by (simp add: init_def)

section \<open>The status cache\<close>

lemma make_connection_status:
  "status (make_connection t p r s) = status s ++ fetched p r"
  by (induction t p r s rule: make_connection.induct)
    (simp_all add: prims meths Let_def split: option.splits)

lemma throw_cancelled_status: "status (throw_cancelled t p s) = status s"
  by (cases p) (simp_all add: prims meths Let_def split: option.splits)

lemma connect_status: "status (connect s) = status s"
  by (simp add: connect_def prims)

lemma step_status: "status (step s e) = status s ++ merged_by s e"
proof (cases e)
  case (EvResume t r)
  then show ?thesis
    by (simp add: resume_task_def make_connection_status throw_cancelled_status)
next
  case EvCallback
  then show ?thesis
    by (simp add: run_callback_connect connect_status split: list.splits)
qed (simp_all add: connect_status close_def disconnected_def status_updated_def set_dp_def
       prims Let_def split: option.splits write_outcome.splits)

lemma exec_status_dom: "dom (status s) \<subseteq> dom (status (exec s evs))"
proof (induction evs arbitrary: s)
  case Nil
  show ?case by (simp add: exec_Nil)
next
  case (Cons e evs)
  have "dom (status s) \<subseteq> dom (status (step s e))"
    by (simp add: step_status)
  also have "\<dots> \<subseteq> dom (status (exec (step s e) evs))"
    by (rule Cons.IH)
  finally show ?case by (simp add: exec_Cons)
qed

lemma make_connection_dispatched:
  "\<exists>ps. dispatched (make_connection t p r s) = dispatched s @ ps
        \<and> set ps \<subseteq> {None, Some (status (make_connection t p r s))}"
  by (induction t p r s rule: make_connection.induct)
    (simp_all add: prims meths Let_def split: option.splits)

lemma throw_cancelled_dispatched: "dispatched (throw_cancelled t p s) = dispatched s"
  by (cases p) (simp_all add: prims meths Let_def split: option.splits)

lemma step_dispatched:
  "\<exists>ps. dispatched (step s e) = dispatched s @ ps
        \<and> set ps \<subseteq> {None, Some (status (step s e))}"
proof (cases e)
  case (EvResume t r)
  then show ?thesis
    using make_connection_dispatched [of t "pc (tasks s ! t)" r s]
    by (simp add: resume_task_def throw_cancelled_dispatched)
next
  case EvCallback
  then show ?thesis
    by (simp add: run_callback_connect connect_dispatched split: list.splits)
next
  case EvDisconnected
  have "dispatched (disconnected s) = dispatched s @ [None]"
    by (simp add: disconnected_def connect_dispatched prims Let_def)
  with EvDisconnected show ?thesis by simp
next
  case (EvStatusUpdated st)
  have "dispatched (status_updated st s) = dispatched s @ [Some (status (status_updated st s))]"
    by (simp add: status_updated_def prims Let_def)
  with EvStatusUpdated show ?thesis by simp
qed (simp_all add: connect_dispatched close_def set_dp_def
       prims Let_def split: option.splits write_outcome.splits)

lemma connected0_facts:
  "\<not> passive_device connected0" "\<not> is_closing connected0" "connect_task connected0 = None"
  "connection_attempts connected0 = 0" "length (tasks connected0) = Suc 0"
  "status connected0 = [''2'' \<mapsto> ''5'']" "dispatched connected0 = [Some [''2'' \<mapsto> ''5'']]"
  "interface connected0 = Some 1"
  by (simp_all add: connected0_def run_defs)

lemma at_status_facts:
  "tasks at_status = [\<lparr>pc = AtStatus, must_cancel = False\<rparr>]"
  "interface at_status = Some 7" "connection_attempts at_status = 0"
  "loop_ready at_status = []" "status at_status = Map.empty" "dispatched at_status = []"
  "link_calls at_status = [AddDpsToRequest 7 {''1'', ''2''}]"
  by (simp_all add: at_status_def run_defs)

text \<open>
  C10. No event removes an entry from the session's status cache: after any event the
  cache is the old cache with the event's dictionary merged over it (nothing for a
  failed attempt, a disconnection, \<open>close\<close> or \<open>set_dp\<close>), so its set of keys only grows
  along any sequence of events. \<open>status_updated\<close> sends the whole cache after the merge,
  not the update alone, and whatever an event sends is \<open>None\<close> or the whole cache.
\<close>

theorem C10_cache_only_grows:
  "status (step s e) = status s ++ merged_by s e
   \<and> dom (status s) \<subseteq> dom (status (exec s evs))
   \<and> status (status_updated st s) = status s ++ st
   \<and> dispatched (status_updated st s) = dispatched s @ [Some (status s ++ st)]
   \<and> (\<exists>ps. dispatched (step s e) = dispatched s @ ps
         \<and> set ps \<subseteq> {None, Some (status (step s e))})"
proof -
  have upd: "status (status_updated st s) = status s ++ st"
    "dispatched (status_updated st s) = dispatched s @ [Some (status s ++ st)]"
    by (simp_all add: status_updated_def prims Let_def)
  from step_status [of s e] exec_status_dom [of s evs] upd step_dispatched [of s e]
  show ?thesis by blast
qed

theorem C10_cache_only_grows_witness:
  "status (step (init cfg0) (EvStatusUpdated [''1'' \<mapsto> ''on''])) = [''1'' \<mapsto> ''on'']
   \<and> dom (status connected0)
       \<subseteq> dom (status (exec connected0 [EvDisconnected, EvClose, EvStatusUpdated [''1'' \<mapsto> ''on'']]))
   \<and> dispatched (status_updated [''1'' \<mapsto> ''on''] connected0)
       = [Some [''2'' \<mapsto> ''5''], Some ([''2'' \<mapsto> ''5''] ++ [''1'' \<mapsto> ''on''])]"
proof -
  note a = C10_cache_only_grows [of "init cfg0" "EvStatusUpdated [''1'' \<mapsto> ''on'']" "[]"
      "[''1'' \<mapsto> ''on'']"]
  note b = C10_cache_only_grows [of connected0 EvDisconnected
      "[EvDisconnected, EvClose, EvStatusUpdated [''1'' \<mapsto> ''on'']]" "[''1'' \<mapsto> ''on'']"]
  have 1: "status (step (init cfg0) (EvStatusUpdated [''1'' \<mapsto> ''on'']))
      = status (init cfg0) ++ merged_by (init cfg0) (EvStatusUpdated [''1'' \<mapsto> ''on''])"
    using a by blast
  have 2: "dom (status connected0)
       \<subseteq> dom (status (exec connected0 [EvDisconnected, EvClose, EvStatusUpdated [''1'' \<mapsto> ''on'']]))"
    "dispatched (status_updated [''1'' \<mapsto> ''on''] connected0)
       = dispatched connected0 @ [Some (status connected0 ++ [''1'' \<mapsto> ''on''])]"
    using b by blast+
  have e: "status (init cfg0) = Map.empty"
    by (simp add: init_def)
  from 1 2 e show ?thesis
    by (simp add: connected0_facts)
qed

section \<open>Writing a datapoint\<close>

text \<open>
  C5, as the claim states it, fails: \<open>set_dp\<close> has no \<open>return\<close> statement, so on a
  session without a link the caller gets \<open>None\<close>, the same result as after a successful
  write on a session with a link.
\<close>

theorem C5_set_dp_counterexample:
  "\<not> isl (fst (set_dp ''true'' 1 WriteOk (init cfg0)))
   \<and> fst (set_dp ''true'' 1 WriteOk (init cfg0))
       = fst (set_dp ''true'' 1 WriteOk ((init cfg0)\<lparr>interface := Some 0\<rparr>))"
  by (simp add: run_defs)

text \<open>
  C5, amended. \<open>set_dp\<close> never changes the connection state (link handle, attempt handle,
  closing flag, attempt counter), creates no task and queues nothing, whatever the link
  does. Without a link it writes the "not connected" error record, returns \<open>None\<close> and
  makes no call on any link. With a link it forwards the write exactly once. When the
  link's write returns, \<open>set_dp\<close> returns \<open>None\<close> and logs nothing. When it raises an
  exception derived from \<open>Exception\<close>, the failure is logged once and \<open>set_dp\<close> returns
  \<open>None\<close>. When it raises an exception that is not derived from \<open>Exception\<close>
  (\<open>CancelledError\<close>), the clause does not catch it: nothing is logged and the exception
  reaches the caller.
\<close>

theorem C5_set_dp_logs_and_returns:
  "connection_state (snd (set_dp state dp_index w s)) = connection_state s
   \<and> tasks (snd (set_dp state dp_index w s)) = tasks s
   \<and> loop_ready (snd (set_dp state dp_index w s)) = loop_ready s
   \<and> (interface s = None \<longrightarrow>
        set_dp state dp_index w s = (Inr (), emit LogNotConnected s)
        \<and> link_calls (snd (set_dp state dp_index w s)) = link_calls s)
   \<and> (interface s = Some l \<longrightarrow>
        set_dp state dp_index (WriteRaises Error) s
          = (Inr (), emit LogFailedSetDp (link_call (LinkSetDp l state dp_index) s))
        \<and> link_calls (snd (set_dp state dp_index w s))
          = link_calls s @ [LinkSetDp l state dp_index])
   \<and> (interface s = Some l \<longrightarrow>
        set_dp state dp_index WriteOk s = (Inr (), link_call (LinkSetDp l state dp_index) s))
   \<and> (interface s = Some l \<and> is_Exception e \<longrightarrow>
        set_dp state dp_index (WriteRaises e) s
          = (Inr (), emit LogFailedSetDp (link_call (LinkSetDp l state dp_index) s)))
   \<and> (interface s = Some l \<and> \<not> is_Exception e \<longrightarrow>
        set_dp state dp_index (WriteRaises e) s
          = (Inl e, link_call (LinkSetDp l state dp_index) s))"
proof -
  have frame: "connection_state (snd (set_dp state dp_index w s)) = connection_state s"
    "tasks (snd (set_dp state dp_index w s)) = tasks s"
    "loop_ready (snd (set_dp state dp_index w s)) = loop_ready s"
    by (simp_all add: set_dp_def connection_state_def prims Let_def
        split: option.splits write_outcome.splits)
  have nolink: "interface s = None \<longrightarrow>
        set_dp state dp_index w s = (Inr (), emit LogNotConnected s)
        \<and> link_calls (snd (set_dp state dp_index w s)) = link_calls s"
    by (simp add: set_dp_def prims)
  have once: "interface s = Some l \<longrightarrow>
        set_dp state dp_index (WriteRaises Error) s
          = (Inr (), emit LogFailedSetDp (link_call (LinkSetDp l state dp_index) s))
        \<and> link_calls (snd (set_dp state dp_index w s))
          = link_calls s @ [LinkSetDp l state dp_index]"
    by (simp add: set_dp_def prims Let_def split: write_outcome.splits)
  have ok: "interface s = Some l \<longrightarrow>
        set_dp state dp_index WriteOk s = (Inr (), link_call (LinkSetDp l state dp_index) s)"
    by (simp add: set_dp_def Let_def)
  have caught: "interface s = Some l \<and> is_Exception e \<longrightarrow>
        set_dp state dp_index (WriteRaises e) s
          = (Inr (), emit LogFailedSetDp (link_call (LinkSetDp l state dp_index) s))"
    by (simp add: set_dp_def Let_def)
  have escapes: "interface s = Some l \<and> \<not> is_Exception e \<longrightarrow>
        set_dp state dp_index (WriteRaises e) s
          = (Inl e, link_call (LinkSetDp l state dp_index) s)"
    by (simp add: set_dp_def Let_def)
  from frame nolink once ok caught escapes show ?thesis
    by blast
qed

theorem C5_set_dp_logs_and_returns_witness:
  "set_dp ''true'' 1 WriteOk (init cfg0) = (Inr (), emit LogNotConnected (init cfg0))
   \<and> link_calls (snd (set_dp ''true'' 1 WriteOk (init cfg0))) = []
   \<and> fst (set_dp ''true'' 1 (WriteRaises Error) at_status) = Inr ()
   \<and> link_calls (snd (set_dp ''true'' 1 (WriteRaises Error) at_status))
       = [AddDpsToRequest 7 {''1'', ''2''}, LinkSetDp 7 ''true'' 1]
   \<and> connection_state (snd (set_dp ''true'' 1 (WriteRaises Error) at_status))
       = connection_state at_status
   \<and> logged (snd (set_dp ''true'' 1 (WriteRaises Error) at_status))
       = logged at_status @ [LogFailedSetDp]
   \<and> fst (set_dp ''true'' 1 (WriteRaises CancelledError) at_status) = Inl CancelledError
   \<and> logged (snd (set_dp ''true'' 1 (WriteRaises CancelledError) at_status)) = logged at_status
   \<and> connection_state (snd (set_dp ''true'' 1 (WriteRaises CancelledError) at_status))
       = connection_state at_status"
proof -
  have nolink: "interface (init cfg0) = None" "link_calls (init cfg0) = []"
    by (simp_all add: init_def)
  have kinds: "is_Exception Error" "\<not> is_Exception CancelledError"
    by simp_all
  note a = C5_set_dp_logs_and_returns
    [where state = "''true''" and dp_index = 1 and w = WriteOk and s = "init cfg0"]
  note b = C5_set_dp_logs_and_returns
    [where state = "''true''" and dp_index = 1 and w = "WriteRaises Error" and s = at_status
       and l = 7 and e = Error]
  note c = C5_set_dp_logs_and_returns
    [where state = "''true''" and dp_index = 1 and w = "WriteRaises CancelledError"
       and s = at_status and l = 7 and e = CancelledError]
  have 1: "set_dp ''true'' 1 WriteOk (init cfg0) = (Inr (), emit LogNotConnected (init cfg0))"
    "link_calls (snd (set_dp ''true'' 1 WriteOk (init cfg0))) = link_calls (init cfg0)"
    using a nolink(1) by blast+
  have 2: "set_dp ''true'' 1 (WriteRaises Error) at_status
      = (Inr (), emit LogFailedSetDp (link_call (LinkSetDp 7 ''true'' 1) at_status))"
    "link_calls (snd (set_dp ''true'' 1 (WriteRaises Error) at_status))
      = link_calls at_status @ [LinkSetDp 7 ''true'' 1]"
    "connection_state (snd (set_dp ''true'' 1 (WriteRaises Error) at_status))
      = connection_state at_status"
    using b at_status_facts(2) kinds(1) by blast+
  have 3: "set_dp ''true'' 1 (WriteRaises CancelledError) at_status
      = (Inl CancelledError, link_call (LinkSetDp 7 ''true'' 1) at_status)"
    "connection_state (snd (set_dp ''true'' 1 (WriteRaises CancelledError) at_status))
      = connection_state at_status"
    using c at_status_facts(2) kinds(2) by blast+
  from 1 2 3 nolink(2) at_status_facts(7) show ?thesis
    by (simp add: emit_def link_call_def)
qed

section \<open>The initial status fetch\<close>

text \<open>
  C4, as the claim states it, fails for an empty dictionary: the test in the source is
  \<open>status is None\<close>, so an attempt whose \<open>status()\<close> returns \<open>{}\<close> succeeds. The counter
  stays at zero, the link is kept and not closed, and no retry is queued.
\<close>

theorem C4_counterexample:
  "connection_attempts (exec (init cfg0)
      [EvConnect, EvResume 0 (Begin 0), EvResume 0 Wake, EvResume 0 (Connected 7),
       EvResume 0 (Status (Some Map.empty))]) = 0
   \<and> interface (exec (init cfg0)
      [EvConnect, EvResume 0 (Begin 0), EvResume 0 Wake, EvResume 0 (Connected 7),
       EvResume 0 (Status (Some Map.empty))]) = Some 7
   \<and> loop_ready (exec (init cfg0)
      [EvConnect, EvResume 0 (Begin 0), EvResume 0 Wake, EvResume 0 (Connected 7),
       EvResume 0 (Status (Some Map.empty))]) = []
   \<and> link_calls (exec (init cfg0)
      [EvConnect, EvResume 0 (Begin 0), EvResume 0 Wake, EvResume 0 (Connected 7),
       EvResume 0 (Status (Some Map.empty))]) = [AddDpsToRequest 7 {''1'', ''2''}]"
  by (simp add: run_defs)

text \<open>
  C4, amended. An attempt whose initial status fetch returns \<open>None\<close> fails: the attempt
  counter grows by one, the link (if still held) is closed and the handle set to \<open>None\<close>,
  \<open>connect\<close> is queued on the loop, and nothing is sent to the subscribers. An attempt
  whose fetch returns a dictionary, the empty one included, succeeds: the counter is
  zero, the link is kept, nothing is queued, and the merged cache is sent.
\<close>

theorem C4_absent_status_fails:
  assumes "t < length (tasks s)" and "pc (tasks s ! t) = AtStatus"
    and "\<not> must_cancel (tasks s ! t)"
  shows "connection_attempts (resume_task t (Status None) s) = connection_attempts s + 1
    \<and> interface (resume_task t (Status None) s) = None
    \<and> link_calls (resume_task t (Status None) s)
        = link_calls s @ (case interface s of Some l \<Rightarrow> [LinkClose l] | None \<Rightarrow> [])
    \<and> loop_ready (resume_task t (Status None) s) = loop_ready s @ [CbConnect]
    \<and> connect_task (resume_task t (Status None) s) = None
    \<and> dispatched (resume_task t (Status None) s) = dispatched s
    \<and> connection_attempts (resume_task t (Status (Some st)) s) = 0
    \<and> interface (resume_task t (Status (Some st)) s) = interface s
    \<and> link_calls (resume_task t (Status (Some st)) s) = link_calls s
    \<and> loop_ready (resume_task t (Status (Some st)) s) = loop_ready s
    \<and> connect_task (resume_task t (Status (Some st)) s) = None
    \<and> dispatched (resume_task t (Status (Some st)) s) = dispatched s @ [Some (status s ++ st)]"
  using assms
  by (simp add: resume_task_def prims meths Let_def split: option.splits)

theorem C4_absent_status_fails_witness:
  "connection_attempts (resume_task 0 (Status None) at_status) = 1
   \<and> interface (resume_task 0 (Status None) at_status) = None
   \<and> link_calls (resume_task 0 (Status None) at_status)
       = [AddDpsToRequest 7 {''1'', ''2''}, LinkClose 7]
   \<and> loop_ready (resume_task 0 (Status None) at_status) = [CbConnect]
   \<and> connection_attempts (resume_task 0 (Status (Some Map.empty)) at_status) = 0
   \<and> loop_ready (resume_task 0 (Status (Some Map.empty)) at_status) = []"
  using C4_absent_status_fails [of 0 at_status Map.empty]
  by (simp add: at_status_facts)

section \<open>Reconnecting after a disconnection\<close>

text \<open>
  C3, as the claim states it, fails: \<open>disconnected\<close> does not touch \<open>_status\<close>. A session
  that held \<open>{"2": "5"}\<close> before the disconnection and fetches \<open>{"1": "on"}\<close> after
  reconnecting sends a dictionary that still maps \<open>"2"\<close> to \<open>"5"\<close>.
\<close>

theorem C3_counterexample:
  "status (exec (init cfg0)
      [EvConnect, EvResume 0 (Begin 0), EvResume 0 Wake, EvResume 0 (Connected 1),
       EvResume 0 (Status (Some [''2'' \<mapsto> ''5''])), EvDisconnected]) ''2'' = Some ''5''
   \<and> (case last (dispatched (exec (init cfg0)
      [EvConnect, EvResume 0 (Begin 0), EvResume 0 Wake, EvResume 0 (Connected 1),
       EvResume 0 (Status (Some [''2'' \<mapsto> ''5''])), EvDisconnected,
       EvResume (Suc 0) (Begin 0), EvResume (Suc 0) Wake, EvResume (Suc 0) (Connected 2),
       EvResume (Suc 0) (Status (Some [''1'' \<mapsto> ''on'']))])) of
         Some m \<Rightarrow> m ''1'' = Some ''on'' \<and> m ''2'' = Some ''5'' \<and> m \<noteq> [''1'' \<mapsto> ''on'']
       | None \<Rightarrow> False)"
proof -
  have ne: "\<And>m :: dps. m ''2'' = Some ''5'' \<Longrightarrow> m \<noteq> [''1'' \<mapsto> ''on'']"
    by auto
  show ?thesis
    by (simp add: run_defs ne)
qed

text \<open>
  C3, amended. For a non-passive device a disconnection leaves the status cache as it
  was; the subscribers get \<open>None\<close>, and after a reconnect whose initial status fetch
  returns \<open>st\<close> they get the old cache with \<open>st\<close> merged over it: the pairs of \<open>st\<close>, and
  every earlier pair whose key \<open>st\<close> does not have.
\<close>

theorem C3_reconnect_merges:
  assumes "\<not> passive_device s" and "\<not> is_closing s" and "connect_task s = None"
    and "d \<in> backoff (connection_attempts s)"
  shows "status (disconnected s) = status s
    \<and> dispatched (exec s
         [EvDisconnected, EvResume (length (tasks s)) (Begin d),
          EvResume (length (tasks s)) Wake, EvResume (length (tasks s)) (Connected l),
          EvResume (length (tasks s)) (Status (Some st))])
       = dispatched s @ [None, Some (status s ++ st)]
    \<and> status (exec s
         [EvDisconnected, EvResume (length (tasks s)) (Begin d),
          EvResume (length (tasks s)) Wake, EvResume (length (tasks s)) (Connected l),
          EvResume (length (tasks s)) (Status (Some st))])
       = status s ++ st"
  using assms
  by (simp add: exec_def resume_task_def prims meths Let_def)

theorem C3_reconnect_merges_witness:
  "dispatched (exec connected0
      [EvDisconnected, EvResume (Suc 0) (Begin 0), EvResume (Suc 0) Wake,
       EvResume (Suc 0) (Connected 2), EvResume (Suc 0) (Status (Some [''1'' \<mapsto> ''on'']))])
     = [Some [''2'' \<mapsto> ''5''], None, Some ([''2'' \<mapsto> ''5''] ++ [''1'' \<mapsto> ''on''])]
   \<and> status (disconnected connected0) = [''2'' \<mapsto> ''5'']"
proof -
  have d: "0 \<in> backoff (connection_attempts connected0)"
    by (simp add: connected0_facts backoff_mem)
  from C3_reconnect_merges [OF connected0_facts(1-3) d, of 2 "[''1'' \<mapsto> ''on'']"]
  show ?thesis
    by (simp add: connected0_facts)
qed

section \<open>Cancellation\<close>

text \<open>
  C2. The claim says the attempt handle is cleared however an attempt ends. When
  \<open>close\<close> cancels an attempt that waits in its backoff sleep, \<open>CancelledError\<close> is raised
  at \<open>await asyncio.sleep(backoff)\<close>, which stands before the \<open>try\<close> block, so the
  coroutine ends there and its last statement, \<open>self._connect_task = None\<close>, is not
  reached: no attempt is in flight, yet \<open>_connect_task\<close> still names the ended task.
\<close>

theorem C2_cancelled_attempt_keeps_handle:
  "connect_task (exec (init cfg0)
      [EvConnect, EvResume 0 (Begin 0), EvClose, EvResume 0 Wake]) = Some 0
   \<and> tasks (exec (init cfg0)
      [EvConnect, EvResume 0 (Begin 0), EvClose, EvResume 0 Wake])
       = [\<lparr>pc = Done, must_cancel = False\<rparr>]
   \<and> in_flight (exec (init cfg0)
      [EvConnect, EvResume 0 (Begin 0), EvClose, EvResume 0 Wake]) = []"
  by (simp add: run_defs in_flight_def)

section \<open>One attempt at a time\<close>

lemma handle_inv_init: "handle_inv (init cfg)"
  by (simp add: handle_inv_def init_def)

lemma handle_inv_frame:
  "tasks s' = tasks s \<Longrightarrow> connect_task s' = connect_task s \<Longrightarrow> handle_inv s \<Longrightarrow> handle_inv s'"
  by (simp add: handle_inv_def)

lemma handle_inv_connect: "handle_inv s \<Longrightarrow> handle_inv (connect s)"
  by (auto simp: handle_inv_def connect_def prims nth_append)

lemma handle_inv_cancel: "handle_inv s \<Longrightarrow> handle_inv (cancel t s)"
  by (auto simp: handle_inv_def cancel_def nth_list_update)

lemma handle_inv_close: "handle_inv s \<Longrightarrow> handle_inv (close s)"
proof -
  assume inv: "handle_inv s"
  let ?s1 = "s\<lparr>is_closing := True\<rparr>"
  let ?s2 = "case connect_task ?s1 of Some t \<Rightarrow> cancel t ?s1 | None \<Rightarrow> ?s1"
  have "handle_inv ?s1"
    using inv by (simp add: handle_inv_def)
  then have "handle_inv ?s2"
    by (simp add: handle_inv_cancel split: option.splits)
  moreover have "tasks (close s) = tasks ?s2" "connect_task (close s) = connect_task ?s2"
    by (simp_all add: close_def Let_def link_call_def split: option.splits)
  ultimately show ?thesis
    by (rule handle_inv_frame [rotated 2])
qed

lemma handle_inv_others_done:
  assumes "handle_inv s" and "t < length (tasks s)" and "pc (tasks s ! t) \<noteq> Done"
    and "u < length (tasks s)" and "u \<noteq> t"
  shows "pc (tasks s ! u) = Done"
proof (rule ccontr)
  assume "pc (tasks s ! u) \<noteq> Done"
  with assms(1,4) have "connect_task s = Some u"
    by (simp add: handle_inv_def)
  moreover from assms(1-3) have "connect_task s = Some t"
    by (simp add: handle_inv_def)
  ultimately show False
    using assms(5) by simp
qed

lemma handle_inv_finish_clear:
  assumes "handle_inv s" and "t < length (tasks s)" and "pc (tasks s ! t) \<noteq> Done"
    and "tasks s' = (tasks s)[t := \<lparr>pc = Done, must_cancel = False\<rparr>]"
  shows "handle_inv s'"
proof -
  have "pc (tasks s' ! u) = Done" if "u < length (tasks s')" for u
  proof (cases "u = t")
    case True
    with assms(2,4) show ?thesis by simp
  next
    case False
    with that assms(4) have "u < length (tasks s)" "tasks s' ! u = tasks s ! u"
      by simp_all
    with handle_inv_others_done [OF assms(1-3) _ False] show ?thesis
      by simp
  qed
  then show ?thesis
    by (simp add: handle_inv_def)
qed

lemma handle_inv_suspend:
  assumes "handle_inv s" and "t < length (tasks s)" and "pc (tasks s ! t) \<noteq> Done"
    and "tasks s' = (tasks s)[t := x]" and "connect_task s' = connect_task s"
  shows "handle_inv s'"
proof -
  have h: "connect_task s' = Some t"
    using assms(1-3,5) by (simp add: handle_inv_def)
  have "pc (tasks s' ! u) = Done" if "u < length (tasks s')" "u \<noteq> t" for u
  proof -
    from that assms(4) have "u < length (tasks s)" "tasks s' ! u = tasks s ! u"
      by simp_all
    with handle_inv_others_done [OF assms(1-3) _ that(2)] show ?thesis
      by simp
  qed
  with h show ?thesis
    by (auto simp: handle_inv_def)
qed

lemma handle_inv_make_connection:
  "handle_inv s \<Longrightarrow> t < length (tasks s) \<Longrightarrow> pc (tasks s ! t) = p
   \<Longrightarrow> handle_inv (make_connection t p r s)"
proof (induction t p r s rule: make_connection.induct)
  case (1 t d s)
  then show ?case
    by (auto intro!: handle_inv_suspend [where s = s and t = t] simp: prims)
next
  case (2 t s)
  then show ?case
    by (auto intro!: handle_inv_suspend [where s = s and t = t] simp: prims)
next
  case (3 t l s)
  then show ?case
    by (auto intro!: handle_inv_suspend [where s = s and t = t] simp: prims)
next
  case (4 t s)
  then show ?case
    by (auto intro!: handle_inv_finish_clear [where s = s and t = t]
        simp: prims meths Let_def split: option.splits)
next
  case (5 t s)
  then show ?case
    by (auto intro!: handle_inv_finish_clear [where s = s and t = t]
        simp: prims meths Let_def split: option.splits)
next
  case (6 t st s)
  then show ?case
    by (auto intro!: handle_inv_finish_clear [where s = s and t = t]
        simp: prims meths Let_def split: option.splits)
next
  case (7 t s)
  then show ?case
    by (auto intro!: handle_inv_finish_clear [where s = s and t = t]
        simp: prims meths Let_def split: option.splits)
qed simp_all

lemma handle_inv_throw_cancelled:
  "handle_inv s \<Longrightarrow> t < length (tasks s) \<Longrightarrow> pc (tasks s ! t) = p
   \<Longrightarrow> handle_inv (throw_cancelled t p s)"
  by (cases p)
    (auto intro!: handle_inv_finish_clear [where s = s and t = t]
      simp: prims meths Let_def split: option.splits)

lemma handle_inv_step: "handle_inv s \<Longrightarrow> handle_inv (step s e)"
proof (cases e)
  case EvConnect
  assume "handle_inv s"
  with EvConnect show ?thesis by (simp add: handle_inv_connect)
next
  case EvClose
  assume "handle_inv s"
  with EvClose show ?thesis by (simp add: handle_inv_close)
next
  case (EvSetDp state dp w)
  assume "handle_inv s"
  then have "handle_inv (snd (set_dp state dp w s))"
    by (rule handle_inv_frame [rotated 2])
      (simp_all add: set_dp_def prims Let_def split: option.splits write_outcome.splits)
  with EvSetDp show ?thesis by simp
next
  case (EvStatusUpdated st)
  assume "handle_inv s"
  then have "handle_inv (status_updated st s)"
    by (rule handle_inv_frame [rotated 2]) (simp_all add: status_updated_def prims Let_def)
  with EvStatusUpdated show ?thesis by simp
next
  case EvDisconnected
  assume inv: "handle_inv s"
  let ?b = "s\<lparr>logged := logged s @ [LogDisconnected],
               dispatched := dispatched s @ [None], interface := None\<rparr>"
  have b: "handle_inv ?b"
    using inv by (simp add: handle_inv_def)
  have "disconnected s = (if passive_device s then emit LogNoAutoReconnect ?b else connect ?b)"
    by (simp add: disconnected_def emit_def async_dispatcher_send_def)
  moreover have "handle_inv (emit LogNoAutoReconnect ?b)"
    using b by (simp add: handle_inv_def emit_def)
  moreover have "handle_inv (connect ?b)"
    using b by (rule handle_inv_connect)
  ultimately show ?thesis
    using EvDisconnected by simp
next
  case EvCallback
  assume inv: "handle_inv s"
  show ?thesis
  proof (cases "loop_ready s")
    case Nil
    with EvCallback inv show ?thesis by simp
  next
    case (Cons cb rest)
    have "handle_inv (s\<lparr>loop_ready := rest\<rparr>)"
      using inv by (simp add: handle_inv_def)
    then have "handle_inv (connect (s\<lparr>loop_ready := rest\<rparr>))"
      by (rule handle_inv_connect)
    with EvCallback Cons show ?thesis
      by (simp add: run_callback_connect)
  qed
next
  case (EvResume t r)
  assume "handle_inv s"
  with EvResume show ?thesis
    by (simp add: resume_task_def handle_inv_make_connection handle_inv_throw_cancelled)
qed

lemma handle_inv_exec: "handle_inv s \<Longrightarrow> handle_inv (exec s evs)"
  by (induction evs arbitrary: s) (simp_all add: exec_Nil exec_Cons handle_inv_step)

lemma in_flight_distinct: "distinct (in_flight s)"
  by (simp add: in_flight_def)

lemma in_flight_handle:
  "handle_inv s \<Longrightarrow> set (in_flight s) \<subseteq> set_option (connect_task s)"
  by (auto simp: in_flight_def handle_inv_def)

lemma in_flight_le_1:
  assumes "handle_inv s"
  shows "length (in_flight s) \<le> 1"
proof -
  have "length (in_flight s) = card (set (in_flight s))"
    using in_flight_distinct by (simp add: distinct_card)
  also have "\<dots> \<le> card (set_option (connect_task s))"
    using in_flight_handle [OF assms] by (intro card_mono) simp_all
  also have "\<dots> \<le> 1"
    by (cases "connect_task s") simp_all
  finally show ?thesis .
qed

lemma in_flight_emit: "in_flight (emit r s) = in_flight s"
  by (simp add: in_flight_def emit_def)

lemma connect_gated:
  "is_closing s \<or> connect_task s \<noteq> None \<or> interface s \<noteq> None
   \<Longrightarrow> connect s = emit LogAlreadyConnecting s"
  by (auto simp: connect_def)

lemma in_flight_connect_idle:
  assumes "\<not> is_closing s" and "connect_task s = None" and "interface s = None"
  shows "in_flight (connect s) = in_flight s @ [length (tasks s)]"
proof -
  have "filter (\<lambda>t. pc ((tasks s @ [\<lparr>pc = NotStarted, must_cancel = False\<rparr>]) ! t) \<noteq> Done)
          [0..<length (tasks s)]
        = filter (\<lambda>t. pc (tasks s ! t) \<noteq> Done) [0..<length (tasks s)]"
    by (rule filter_cong) (simp_all add: nth_append)
  with assms show ?thesis
    by (simp add: connect_def in_flight_def prims)
qed

lemma connect_twice:
  assumes "\<not> is_closing s" and "connect_task s = None" and "interface s = None"
  shows "connect (connect s) = emit LogAlreadyConnecting (connect s)"
proof -
  have "connect_task (connect s) \<noteq> None"
    using assms by (simp add: connect_def prims)
  then show ?thesis
    by (simp add: connect_gated)
qed

text \<open>
  C1. In every state a fresh session can reach, at most one attempt is in flight. A call
  of \<open>connect\<close> on a session that is closing, has its attempt handle set or holds a link
  only writes a log record: no task is created and the handle stays. In a reachable state
  with an attempt in flight \<open>connect\<close> leaves the attempts in flight as they are. On an
  idle session \<open>connect\<close> starts exactly one attempt and a second call right after it
  starts none; two calls on a fresh session leave exactly one attempt, task 0, in flight.
\<close>

theorem C1_single_attempt:
  "length (in_flight (exec (init cfg) evs)) \<le> 1
   \<and> (is_closing s \<or> connect_task s \<noteq> None \<or> interface s \<noteq> None \<longrightarrow>
        connect s = emit LogAlreadyConnecting s
        \<and> tasks (connect s) = tasks s
        \<and> connect_task (connect s) = connect_task s
        \<and> in_flight (connect s) = in_flight s)
   \<and> (in_flight (exec (init cfg) evs) \<noteq> [] \<longrightarrow>
        in_flight (connect (exec (init cfg) evs)) = in_flight (exec (init cfg) evs))
   \<and> (\<not> is_closing s \<and> connect_task s = None \<and> interface s = None \<longrightarrow>
        in_flight (connect s) = in_flight s @ [length (tasks s)]
        \<and> in_flight (connect (connect s)) = in_flight (connect s))
   \<and> in_flight (connect (connect (init cfg))) = [0]"
proof -
  let ?r = "exec (init cfg) evs"
  have inv: "handle_inv ?r"
    using handle_inv_init by (rule handle_inv_exec)
  then have one: "length (in_flight ?r) \<le> 1"
    by (rule in_flight_le_1)
  have gated: "is_closing s \<or> connect_task s \<noteq> None \<or> interface s \<noteq> None \<longrightarrow>
        connect s = emit LogAlreadyConnecting s
        \<and> tasks (connect s) = tasks s
        \<and> connect_task (connect s) = connect_task s
        \<and> in_flight (connect s) = in_flight s"
  proof
    assume "is_closing s \<or> connect_task s \<noteq> None \<or> interface s \<noteq> None"
    then have "connect s = emit LogAlreadyConnecting s"
      by (rule connect_gated)
    then show "connect s = emit LogAlreadyConnecting s
        \<and> tasks (connect s) = tasks s
        \<and> connect_task (connect s) = connect_task s
        \<and> in_flight (connect s) = in_flight s"
      by (simp add: in_flight_emit) (simp add: emit_def)
  qed
  have busy: "in_flight ?r \<noteq> [] \<longrightarrow> in_flight (connect ?r) = in_flight ?r"
  proof
    assume "in_flight ?r \<noteq> []"
    then obtain t where "t \<in> set (in_flight ?r)"
      by (cases "in_flight ?r") auto
    with in_flight_handle [OF inv] have "connect_task ?r \<noteq> None"
      by auto
    then have "connect ?r = emit LogAlreadyConnecting ?r"
      by (simp add: connect_gated)
    then show "in_flight (connect ?r) = in_flight ?r"
      by (simp add: in_flight_emit)
  qed
  have idle: "\<not> is_closing s \<and> connect_task s = None \<and> interface s = None \<longrightarrow>
        in_flight (connect s) = in_flight s @ [length (tasks s)]
        \<and> in_flight (connect (connect s)) = in_flight (connect s)"
    by (simp add: in_flight_connect_idle connect_twice in_flight_emit)
  have fresh: "in_flight (connect (connect (init cfg))) = [0]"
  proof -
    have i: "\<not> is_closing (init cfg)" "connect_task (init cfg) = None"
      "interface (init cfg) = None" "in_flight (init cfg) = []" "tasks (init cfg) = []"
      by (simp_all add: init_def in_flight_def)
    then show ?thesis
      by (simp add: in_flight_connect_idle connect_twice in_flight_emit)
  qed
  from one gated busy idle fresh show ?thesis by blast
qed

theorem C1_single_attempt_witness:
  "length (in_flight (exec (init cfg0) [EvConnect, EvConnect])) \<le> 1
   \<and> in_flight (connect (init cfg0)) = [0]
   \<and> in_flight (connect (connect (init cfg0))) = [0]
   \<and> tasks (connect (connect (init cfg0))) = tasks (connect (init cfg0))"
proof -
  have idle: "\<not> is_closing (init cfg0) \<and> connect_task (init cfg0) = None
      \<and> interface (init cfg0) = None"
    "in_flight (init cfg0) = []" "tasks (init cfg0) = []"
    by (simp_all add: init_def in_flight_def)
  have busy: "is_closing (connect (init cfg0)) \<or> connect_task (connect (init cfg0)) \<noteq> None
      \<or> interface (connect (init cfg0)) \<noteq> None"
    by (simp add: init_def connect_def prims)
  note a = C1_single_attempt [of cfg0 "[EvConnect, EvConnect]" "init cfg0"]
  note b = C1_single_attempt [of cfg0 "[]" "connect (init cfg0)"]
  have 1: "length (in_flight (exec (init cfg0) [EvConnect, EvConnect])) \<le> 1"
    using a by blast
  have 2: "in_flight (connect (init cfg0)) = in_flight (init cfg0) @ [length (tasks (init cfg0))]"
    "in_flight (connect (connect (init cfg0))) = in_flight (connect (init cfg0))"
    using a idle(1) by blast+
  have 3: "tasks (connect (connect (init cfg0))) = tasks (connect (init cfg0))"
    using b busy by blast
  from 1 2 3 idle(2,3) show ?thesis
    by simp
qed

section \<open>The attempt counter\<close>

lemma fresh_attempt_init: "fresh_attempt (connect (init cfg)) 0"
  by (simp add: fresh_attempt_def init_def connect_def prims)

lemma one_failure:
  assumes "fresh_attempt s t" and "d \<in> backoff (connection_attempts s)"
  shows "fresh_attempt (exec s (failed_attempt t d f @ [EvCallback])) (Suc t)
    \<and> connection_attempts (exec s (failed_attempt t d f @ [EvCallback]))
        = Suc (connection_attempts s)"
  using assms
  by (cases f)
    (simp_all add: fresh_attempt_def exec_def resume_task_def prims meths Let_def nth_append)

lemma many_failures:
  "fresh_attempt s t \<Longrightarrow> delays_ok (connection_attempts s) fs
   \<Longrightarrow> fresh_attempt (exec s (failures t fs)) (t + length fs)
     \<and> connection_attempts (exec s (failures t fs)) = connection_attempts s + length fs"
proof (induction fs arbitrary: s t)
  case Nil
  then show ?case by (simp add: exec_Nil)
next
  case (Cons df fs)
  obtain d f where df: "df = (d, f)"
    by (cases df)
  let ?s1 = "exec s (failed_attempt t d f @ [EvCallback])"
  from Cons.prems df have d: "d \<in> backoff (connection_attempts s)"
    and rest: "delays_ok (Suc (connection_attempts s)) fs"
    by simp_all
  from one_failure [OF Cons.prems(1) d, of f]
  have s1: "fresh_attempt ?s1 (Suc t)" "connection_attempts ?s1 = Suc (connection_attempts s)"
    by simp_all
  from rest s1(2) have "delays_ok (connection_attempts ?s1) fs"
    by simp
  from Cons.IH [OF s1(1) this] s1(2)
  have "fresh_attempt (exec ?s1 (failures (Suc t) fs)) (Suc t + length fs)
    \<and> connection_attempts (exec ?s1 (failures (Suc t) fs))
        = Suc (connection_attempts s) + length fs"
    by simp
  moreover have "exec s (failures t (df # fs)) = exec ?s1 (failures (Suc t) fs)"
    by (simp add: df exec_append [symmetric])
  ultimately show ?case
    by simp
qed

lemma success_resets:
  assumes "fresh_attempt s t" and "d \<in> backoff (connection_attempts s)"
  shows "connection_attempts (exec s (successful_attempt t d l st)) = 0"
  using assms
  by (simp add: successful_attempt_def fresh_attempt_def exec_def resume_task_def prims meths
      Let_def)

text \<open>
  C9. A successful attempt (its status fetch returns a dictionary) sets the attempt
  counter to zero; a failed attempt (\<open>pytuya.connect\<close> raises, or \<open>status()\<close> raises or
  returns \<open>None\<close>) adds one to it. So on a fresh session, after \<open>k\<close> failed attempts in
  a row, whatever their kinds and delays, the counter is \<open>k\<close>, and after one more attempt
  that succeeds it is zero.
\<close>

theorem C9_attempt_counter:
  "(t < length (tasks s) \<and> \<not> must_cancel (tasks s ! t) \<and> pc (tasks s ! t) = AtStatus \<longrightarrow>
      connection_attempts (resume_task t (Status (Some st)) s) = 0
      \<and> connection_attempts (resume_task t (Status None) s) = connection_attempts s + 1
      \<and> connection_attempts (resume_task t StatusFailed s) = connection_attempts s + 1)
   \<and> (t < length (tasks s) \<and> \<not> must_cancel (tasks s ! t) \<and> pc (tasks s ! t) = AtConnect \<longrightarrow>
      connection_attempts (resume_task t ConnectFailed s) = connection_attempts s + 1)
   \<and> (delays_ok 0 fs \<longrightarrow>
      connection_attempts (exec (init cfg) (EvConnect # failures 0 fs)) = length fs)
   \<and> (delays_ok 0 fs \<and> d \<in> backoff (length fs) \<longrightarrow>
      connection_attempts
        (exec (init cfg) (EvConnect # failures 0 fs @ successful_attempt (length fs) d l st)) = 0)"
proof -
  have at_status: "t < length (tasks s) \<and> \<not> must_cancel (tasks s ! t) \<and> pc (tasks s ! t) = AtStatus \<longrightarrow>
      connection_attempts (resume_task t (Status (Some st)) s) = 0
      \<and> connection_attempts (resume_task t (Status None) s) = connection_attempts s + 1
      \<and> connection_attempts (resume_task t StatusFailed s) = connection_attempts s + 1"
    by (simp add: resume_task_def prims meths Let_def split: option.splits)
  have at_connect: "t < length (tasks s) \<and> \<not> must_cancel (tasks s ! t) \<and> pc (tasks s ! t) = AtConnect \<longrightarrow>
      connection_attempts (resume_task t ConnectFailed s) = connection_attempts s + 1"
    by (simp add: resume_task_def prims meths Let_def split: option.splits)
  have zero: "connection_attempts (connect (init cfg)) = 0"
    by (simp add: init_def connect_def prims)
  have run: "fresh_attempt (exec (init cfg) (EvConnect # failures 0 fs)) (length fs)
      \<and> connection_attempts (exec (init cfg) (EvConnect # failures 0 fs)) = length fs"
    if "delays_ok 0 fs"
    using many_failures [OF fresh_attempt_init, of cfg fs] that
    by (simp add: exec_Cons zero)
  have fails: "delays_ok 0 fs \<longrightarrow>
      connection_attempts (exec (init cfg) (EvConnect # failures 0 fs)) = length fs"
    using run by simp
  have succeeds: "delays_ok 0 fs \<and> d \<in> backoff (length fs) \<longrightarrow>
      connection_attempts
        (exec (init cfg) (EvConnect # failures 0 fs @ successful_attempt (length fs) d l st)) = 0"
  proof
    assume a: "delays_ok 0 fs \<and> d \<in> backoff (length fs)"
    let ?s = "exec (init cfg) (EvConnect # failures 0 fs)"
    from a run have f: "fresh_attempt ?s (length fs)" and n: "connection_attempts ?s = length fs"
      by simp_all
    from a n have "d \<in> backoff (connection_attempts ?s)"
      by simp
    from success_resets [OF f this, of l st]
    show "connection_attempts
        (exec (init cfg) (EvConnect # failures 0 fs @ successful_attempt (length fs) d l st)) = 0"
      using exec_append [of "init cfg" "EvConnect # failures 0 fs"
          "successful_attempt (length fs) d l st"]
      by simp
  qed
  from at_status at_connect fails succeeds show ?thesis
    by blast
qed

theorem C9_attempt_counter_witness:
  "connection_attempts (exec (init cfg0)
      (EvConnect # failures 0 [(0, ConnectRaises), (1, StatusNone 4), (3, StatusRaises 5)])) = 3
   \<and> connection_attempts (exec (init cfg0)
      (EvConnect # failures 0 [(0, ConnectRaises), (1, StatusNone 4), (3, StatusRaises 5)]
         @ successful_attempt 3 7 6 [''1'' \<mapsto> ''true'', ''2'' \<mapsto> ''10''])) = 0
   \<and> connection_attempts (resume_task 0 (Status None) at_status) = 1"
proof -
  let ?fs = "[(0, ConnectRaises), (1, StatusNone 4), (3, StatusRaises 5)] :: (int \<times> failure) list"
  have ok: "delays_ok 0 ?fs" "7 \<in> backoff (length ?fs)"
    by (simp_all add: backoff_mem)
  have st: "0 < length (tasks at_status) \<and> \<not> must_cancel (tasks at_status ! 0)
      \<and> pc (tasks at_status ! 0) = AtStatus"
    by (simp add: at_status_facts)
  note a = C9_attempt_counter [of 0 at_status "[''1'' \<mapsto> ''true'', ''2'' \<mapsto> ''10'']" ?fs cfg0 7 6]
  have 1: "connection_attempts (exec (init cfg0) (EvConnect # failures 0 ?fs)) = length ?fs"
    using a ok by blast
  have 2: "connection_attempts (exec (init cfg0) (EvConnect # failures 0 ?fs
      @ successful_attempt (length ?fs) 7 6 [''1'' \<mapsto> ''true'', ''2'' \<mapsto> ''10''])) = 0"
    using a ok by blast
  have 3: "connection_attempts (resume_task 0 (Status None) at_status)
      = connection_attempts at_status + 1"
    using a st by blast
  from 1 2 3 show ?thesis
    by (simp add: at_status_facts numeral_3_eq_3)
qed

end
